theory Spec2Isabelle
  imports Complex_Main
begin

section \<open>PII detection and anonymization: the orchestration layer of main.py\<close>

text \<open>
  The program is a thin layer over libraries that are not part of the repository: the
  Presidio analyzer and anonymizer engines, Python's \<open>csv\<close> and \<open>json\<close> modules, the
  UTF-8 codec and \<open>str()\<close>. Those are taken as parameters, collected in the record
  \<open>libs\<close>; every function of main.py is translated over an arbitrary \<open>libs\<close>.
  A library call that can raise on the way of a claim returns \<open>option\<close> and the caller
  turns \<open>None\<close> into the exception; the two engines are taken as total functions.

  Python \<open>str\<close> is modelled as \<open>string\<close>, a \<open>bytes\<close> object as a list of 8-bit
  characters, a confidence score (a Python float) as a real number.
\<close>

subsection \<open>Data\<close>

type_synonym bytes = "char list"

text \<open>One entry of the \<open>patterns\<close> list given to \<open>PatternRecognizer\<close> (main.py line 52).\<close>

record pattern =
  pat_name :: string
  regex :: string
  pat_score :: real

text \<open>
  A recognizer in a registry: one of the library's predefined ones (opaque, known by name),
  or a \<open>PatternRecognizer\<close> with its \<open>supported_entity\<close> and its patterns.
\<close>

datatype recognizer =
  Predefined string
| PatternRecognizer string "pattern list"

text \<open>\<open>RecognizerResult\<close>: the fields main.py reads (\<open>end\<close> is written \<open>end_pos\<close>).\<close>

record recognizer_result =
  entity_type :: string
  start :: nat
  end_pos :: nat
  score :: real

text \<open>The dict that \<open>detect_pii\<close> builds per result, keys "entity", "score", "text".\<close>

record pii_match =
  m_entity :: string
  m_score :: real
  m_text :: string

text \<open>A parsed JSON value, as \<open>json.loads\<close> returns it; a dict keeps its items in order.\<close>

datatype json =
  JNull
| JBool bool
| JInt int
| JFloat real
| JStr string
| JList "json list"
| JDict "(string \<times> json) list"

text \<open>The uploaded file object: \<open>file.name\<close> and what \<open>file.read()\<close> returns.\<close>

record upload =
  file_name :: string
  file_data :: bytes

datatype error = UnicodeDecodeError | CsvError | IndexError | JSONDecodeError

subsection \<open>The libraries, as parameters\<close>

record libs =
  predefined_recognizers :: "recognizer list"
  pattern_recognizer_raises :: "string \<Rightarrow> pattern list \<Rightarrow> bool"
  analyze :: "recognizer list \<Rightarrow> string \<Rightarrow> string list option \<Rightarrow> string \<Rightarrow> recognizer_result list"
  anonymize :: "string \<Rightarrow> recognizer_result list \<Rightarrow> string"
  decode_utf8 :: "bytes \<Rightarrow> string option"
  csv_reader :: "string \<Rightarrow> string list list option"
  csv_writer :: "string list list \<Rightarrow> string"
  json_loads :: "string \<Rightarrow> json option"
  json_dumps :: "json \<Rightarrow> string"
  str_matches :: "pii_match list \<Rightarrow> string"

subsection \<open>Python built-ins used by main.py\<close>

text \<open>\<open>text[a:b]\<close> for non-negative \<open>a\<close>, \<open>b\<close>: empty when \<open>b \<le> a\<close>, cut at the end of the text.\<close>

definition slice :: "string \<Rightarrow> nat \<Rightarrow> nat \<Rightarrow> string" where
  "slice t a b = drop a (take b t)"

text \<open>\<open>s.endswith(suf)\<close>.\<close>

definition endswith :: "string \<Rightarrow> string \<Rightarrow> bool" where
  "endswith s suf = (take (length suf) (rev s) = rev suf)"

text \<open>\<open>s.lower()\<close> on ASCII letters; other characters are left as they are.\<close>

definition lower_char :: "char \<Rightarrow> char" where
  "lower_char c =
     (case map_of (zip ''ABCDEFGHIJKLMNOPQRSTUVWXYZ'' ''abcdefghijklmnopqrstuvwxyz'') c of
        None \<Rightarrow> c
      | Some l \<Rightarrow> l)"

definition lower :: "string \<Rightarrow> string" where
  "lower s = map lower_char s"

text \<open>\<open>s.split(sep)\<close> for a one-character separator: never empty, keeps empty pieces.\<close>

fun split_on :: "char \<Rightarrow> string \<Rightarrow> string list" where
  "split_on sep [] = [[]]"
| "split_on sep (c # cs) =
     (if c = sep then [] # split_on sep cs
      else (case split_on sep cs of [] \<Rightarrow> [[c]] | p # ps \<Rightarrow> (c # p) # ps))"

text \<open>
  \<open>s.strip()\<close>: white space removed at both ends. Among the code points below 256, the
  white space of \<open>str.isspace\<close> is 9 to 13, 28 to 32, 133 (next line) and 160 (no-break
  space).
\<close>

definition isspace :: "char \<Rightarrow> bool" where
  "isspace c =
     (let n = (of_char c :: nat)
      in (9 \<le> n \<and> n \<le> 13) \<or> (28 \<le> n \<and> n \<le> 32) \<or> n = 133 \<or> n = 160)"

definition strip :: "string \<Rightarrow> string" where
  "strip s = rev (dropWhile isspace (rev (dropWhile isspace s)))"

text \<open>\<open>round(x, 3)\<close>: to the nearest multiple of 1/1000, a tie going to the even one.\<close>

definition round_half_even :: "real \<Rightarrow> int" where
  "round_half_even x =
     (let f = \<lfloor>x\<rfloor>; d = x - of_int f
      in if d < 1 / 2 then f else if 1 / 2 < d then f + 1 else if even f then f else f + 1)"

definition round3 :: "real \<Rightarrow> real" where
  "round3 x = of_int (round_half_even (x * 1000)) / 1000"

subsection \<open>main.py\<close>

text \<open>\<open>PII_LABELS\<close> (lines 29 to 35). No function of main.py reads it.\<close>

definition PII_LABELS :: "(string \<times> string) list" where
  "PII_LABELS =
     [(''PERSON'', ''PERSON''),
      (''EMAIL_ADDRESS'', ''EMAIL''),
      (''PHONE_NUMBER'', ''PHONE''),
      (''LOCATION'', ''LOCATION''),
      (''ORG'', ''ORGANIZATION'')]"

text \<open>The argument list of the \<open>PatternRecognizer\<close> call, lines 50 to 53.\<close>

definition custom_patterns :: "string \<Rightarrow> pattern list" where
  "custom_patterns p = [\<lparr>pat_name = ''custom_pattern'', regex = p, pat_score = 85 / 100\<rparr>]"

text \<open>
  \<open>build_custom_regex_recognizer\<close>, lines 45 to 55. \<open>not patterns\<close> holds for \<open>None\<close> and
  for the empty string; an exception of the constructor is caught and gives \<open>None\<close>.
\<close>

definition build_custom_regex_recognizer :: "libs \<Rightarrow> string option \<Rightarrow> recognizer option" where
  "build_custom_regex_recognizer L patterns =
     (case patterns of
        None \<Rightarrow> None
      | Some p \<Rightarrow>
          if p = [] then None
          else if pattern_recognizer_raises L ''CUSTOM_PII'' (custom_patterns p) then None
          else Some (PatternRecognizer ''CUSTOM_PII'' (custom_patterns p)))"

text \<open>
  Lines 63 to 69 and 96 to 102, the same in both callers: a fresh registry with the
  predefined recognizers, and the custom one added when it was asked for and was built.
\<close>

definition make_registry :: "libs \<Rightarrow> string option \<Rightarrow> recognizer list" where
  "make_registry L custom_regex =
     (let registry = predefined_recognizers L
      in case custom_regex of
           None \<Rightarrow> registry
         | Some p \<Rightarrow>
             if p = [] then registry
             else (case build_custom_regex_recognizer L custom_regex of
                     None \<Rightarrow> registry
                   | Some custom_recog \<Rightarrow> registry @ [custom_recog]))"

definition detect_entities :: "string list" where
  "detect_entities =
     [''PERSON'', ''EMAIL_ADDRESS'', ''PHONE_NUMBER'', ''LOCATION'', ''CREDIT_CARD'', ''CUSTOM_PII'']"

text \<open>The dict built per result, lines 81 to 85.\<close>

definition readable :: "string \<Rightarrow> recognizer_result \<Rightarrow> pii_match" where
  "readable t res =
     \<lparr>m_entity = entity_type res,
      m_score = round3 (score res),
      m_text = slice t (start res) (end_pos res)\<rparr>"

text \<open>\<open>detect_pii\<close>, lines 62 to 88.\<close>

definition detect_pii :: "libs \<Rightarrow> string \<Rightarrow> string option \<Rightarrow> pii_match list" where
  "detect_pii L t custom_regex =
     (let registry = make_registry L custom_regex;
          results = analyze L registry t (Some detect_entities) ''en''
      in map (readable t) results)"

text \<open>
  \<open>anonymize_text\<close>, lines 95 to 112. The analyzer is called without \<open>entities\<close>; the
  filter runs when the whitelist is a non-empty list.
\<close>

definition anonymize_text :: "libs \<Rightarrow> string \<Rightarrow> string option \<Rightarrow> string list \<Rightarrow> string" where
  "anonymize_text L t custom_regex whitelist =
     (let registry = make_registry L custom_regex;
          results = analyze L registry t None ''en'';
          results = (if whitelist \<noteq> []
                     then filter (\<lambda>r. slice t (start r) (end_pos r) \<notin> set whitelist) results
                     else results)
      in anonymize L t results)"


text \<open>The match list as a JSON value, the way \<open>json.dumps\<close> sees the list of dicts.\<close>

definition match_json :: "pii_match \<Rightarrow> json" where
  "match_json m =
     JDict [(''entity'', JStr (m_entity m)), (''score'', JFloat (m_score m)), (''text'', JStr (m_text m))]"

text \<open>\<open>process_json\<close>, lines 156 to 163, with the variables it closes over as arguments.\<close>

fun process_json :: "libs \<Rightarrow> string option \<Rightarrow> string list \<Rightarrow> string \<Rightarrow> json \<Rightarrow> json" where
  "process_json L custom_regex wl mode (JDict kvs) =
     JDict (map (\<lambda>kv. (fst kv, process_json L custom_regex wl mode (snd kv))) kvs)"
| "process_json L custom_regex wl mode (JList xs) =
     JList (map (process_json L custom_regex wl mode) xs)"
| "process_json L custom_regex wl mode (JStr s) =
     (if mode = ''detect'' then JList (map match_json (detect_pii L s custom_regex))
      else JStr (anonymize_text L s custom_regex wl))"
| "process_json L custom_regex wl mode obj = obj"

text \<open>Line 123 (and 199): the whitelist text box split at commas, each piece stripped.\<close>

definition whitelist_items :: "string option \<Rightarrow> string list" where
  "whitelist_items whitelist =
     (case whitelist of
        None \<Rightarrow> []
      | Some w \<Rightarrow> if w = [] then [] else map strip (split_on CHR '','' w))"

text \<open>The body of the two loops over the CSV cells, lines 138 to 141.\<close>

definition process_cell :: "libs \<Rightarrow> string option \<Rightarrow> string list \<Rightarrow> string \<Rightarrow> string \<Rightarrow> string" where
  "process_cell L custom_regex wl mode cell =
     (if mode = ''detect'' then str_matches L (detect_pii L cell custom_regex)
      else anonymize_text L cell custom_regex wl)"

definition pdf_message :: string where
  "pdf_message = ''PDF support present in your original code (presidio can't extract text reliably).''"

text \<open>
  \<open>process_file\<close>, lines 119 to 183. \<open>Inl\<close> is an exception leaving the function:
  a failed \<open>decode\<close>, \<open>csv.Error\<close>, \<open>reader[0]\<close> on an empty list, a failed \<open>json.loads\<close>.
\<close>

definition process_file ::
  "libs \<Rightarrow> upload option \<Rightarrow> string option \<Rightarrow> string option \<Rightarrow> string \<Rightarrow> error + (string \<times> string option)" where
  "process_file L file custom_regex whitelist mode =
     (case file of
        None \<Rightarrow> Inr (''No file uploaded'', None)
      | Some f \<Rightarrow>
          let wl = whitelist_items whitelist;
              name = lower (file_name f);
              data = file_data f
          in if endswith name ''.csv'' then
               (case decode_utf8 L data of
                  None \<Rightarrow> Inl UnicodeDecodeError
                | Some decoded \<Rightarrow>
                    (case csv_reader L decoded of
                       None \<Rightarrow> Inl CsvError
                     | Some reader \<Rightarrow>
                         (case reader of
                            [] \<Rightarrow> Inl IndexError
                          | header # rows \<Rightarrow>
                              let output_rows = map (map (process_cell L custom_regex wl mode)) rows;
                                  out_csv = csv_writer L (header # output_rows)
                              in Inr (out_csv, Some out_csv))))
             else if endswith name ''.json'' then
               (case decode_utf8 L data of
                  None \<Rightarrow> Inl UnicodeDecodeError
                | Some decoded \<Rightarrow>
                    (case json_loads L decoded of
                       None \<Rightarrow> Inl JSONDecodeError
                     | Some json_data \<Rightarrow>
                         let processed = process_json L custom_regex wl mode json_data;
                             result_str = json_dumps L processed
                         in Inr (result_str, Some result_str)))
             else if endswith name ''.txt'' then
               (case decode_utf8 L data of
                  None \<Rightarrow> Inl UnicodeDecodeError
                | Some t \<Rightarrow>
                    let processed = (if mode = ''detect'' then str_matches L (detect_pii L t custom_regex)
                                     else anonymize_text L t custom_regex wl)
                    in Inr (processed, Some processed))
             else if endswith name ''.pdf'' then Inr (pdf_message, None)
             else Inr (''Unsupported file type'', None))"

text \<open>\<open>analyze_file\<close>, \<open>anonymize_file\<close> (lines 190 to 195): the first member of the pair.\<close>

definition analyze_file :: "libs \<Rightarrow> upload option \<Rightarrow> string option \<Rightarrow> string option \<Rightarrow> error + string" where
  "analyze_file L file custom_regex whitelist =
     map_sum id fst (process_file L file custom_regex whitelist ''detect'')"

definition anonymize_file :: "libs \<Rightarrow> upload option \<Rightarrow> string option \<Rightarrow> string option \<Rightarrow> error + string" where
  "anonymize_file L file custom_regex whitelist =
     map_sum id fst (process_file L file custom_regex whitelist ''anonymize'')"

text \<open>\<open>quick_test\<close>, lines 198 to 200.\<close>

definition quick_test :: "libs \<Rightarrow> string \<Rightarrow> string option \<Rightarrow> string option \<Rightarrow> string" where
  "quick_test L t custom_regex whitelist =
     anonymize_text L t custom_regex (whitelist_items whitelist)"

subsection \<open>Properties used in the statements\<close>

text \<open>
  Two JSON values have the same shape: the same constructor at every node, dicts with the
  same keys in the same order, lists of the same length, equal scalars other than strings.
\<close>

fun same_shape :: "json \<Rightarrow> json \<Rightarrow> bool"
  and same_shape_list :: "json list \<Rightarrow> json list \<Rightarrow> bool"
  and same_shape_items :: "(string \<times> json) list \<Rightarrow> (string \<times> json) list \<Rightarrow> bool" where
  "same_shape (JStr s) b = (case b of JStr t \<Rightarrow> True | _ \<Rightarrow> False)"
| "same_shape (JList xs) b = (case b of JList ys \<Rightarrow> same_shape_list xs ys | _ \<Rightarrow> False)"
| "same_shape (JDict kvs) b = (case b of JDict kws \<Rightarrow> same_shape_items kvs kws | _ \<Rightarrow> False)"
| "same_shape JNull b = (b = JNull)"
| "same_shape (JBool x) b = (b = JBool x)"
| "same_shape (JInt i) b = (b = JInt i)"
| "same_shape (JFloat x) b = (b = JFloat x)"
| "same_shape_list [] ys = (ys = [])"
| "same_shape_list (x # xs) ys =
     (case ys of [] \<Rightarrow> False | y # ys' \<Rightarrow> same_shape x y \<and> same_shape_list xs ys')"
| "same_shape_items [] kws = (kws = [])"
| "same_shape_items (kv # kvs) kws =
     (case kws of
        [] \<Rightarrow> False
      | kw # kws' \<Rightarrow> fst kv = fst kw \<and> same_shape (snd kv) (snd kw) \<and> same_shape_items kvs kws')"

text \<open>The engine kept to the categories it was asked for, with scores between 0 and 1.\<close>

definition results_within :: "string list \<Rightarrow> recognizer_result list \<Rightarrow> bool" where
  "results_within entities rs =
     list_all (\<lambda>r. entity_type r \<in> set entities \<and> 0 \<le> score r \<and> score r \<le> 1) rs"

text \<open>The category labels listed in the specification's data model.\<close>

definition spec_category_labels :: "string list" where
  "spec_category_labels =
     [''PERSON'', ''EMAIL'', ''PHONE'', ''LOCATION'', ''ORGANIZATION'', ''CREDIT_CARD'', ''CUSTOM'']"

text \<open>A file of a supported format whose content decodes and parses (a CSV to at least a header).\<close>

definition supported :: "upload \<Rightarrow> bool" where
  "supported f =
     (endswith (lower (file_name f)) ''.csv'' \<or> endswith (lower (file_name f)) ''.json''
      \<or> endswith (lower (file_name f)) ''.txt'')"

definition parses :: "libs \<Rightarrow> upload \<Rightarrow> bool" where
  "parses L f =
     (case decode_utf8 L (file_data f) of
        None \<Rightarrow> False
      | Some decoded \<Rightarrow>
          if endswith (lower (file_name f)) ''.csv''
          then (case csv_reader L decoded of Some (header # rows) \<Rightarrow> True | _ \<Rightarrow> False)
          else if endswith (lower (file_name f)) ''.json''
          then (case json_loads L decoded of Some json_data \<Rightarrow> True | None \<Rightarrow> False)
          else True)"

subsection \<open>Stand-ins for the libraries, for concrete inputs\<close>

text \<open>
  Modelled from the spec: the anonymization engine is not part of the repository; it
  replaces each span it is given by a placeholder made of the category, \<open><CATEGORY>\<close>,
  and leaves the text outside the spans as it is. Spans are replaced from the last to the
  first, so that the offsets of the earlier ones stay valid.
\<close>

definition placeholder :: "string \<Rightarrow> recognizer_result \<Rightarrow> string" where
  "placeholder t r = take (start r) t @ ''<'' @ entity_type r @ ''>'' @ drop (end_pos r) t"

definition replace_spans :: "string \<Rightarrow> recognizer_result list \<Rightarrow> string" where
  "replace_spans t rs = foldl placeholder t (rev (sort_key start rs))"



text \<open>
  A small analyzer. It knows one e-mail address, whose domain is also a URL, alone and at
  the end of one sentence that begins with a person's name; a pattern recognizer takes its
  pattern as a literal and matches it at the beginning of the text, never as an empty
  span. The \<open>entities\<close> argument restricts the categories.
\<close>

definition demo_sentence :: string where
  "demo_sentence = ''John Doe's email is john@example.com''"

fun demo_recognize :: "string \<Rightarrow> recognizer \<Rightarrow> recognizer_result list" where
  "demo_recognize t (Predefined n) =
     (if t = ''john@example.com'' \<and> n = ''EmailRecognizer''
      then [\<lparr>entity_type = ''EMAIL_ADDRESS'', start = 0, end_pos = 16, score = 1\<rparr>]
      else if t = ''john@example.com'' \<and> n = ''UrlRecognizer''
      then [\<lparr>entity_type = ''URL'', start = 5, end_pos = 16, score = 1 / 2\<rparr>]
      else if t = demo_sentence \<and> n = ''SpacyRecognizer''
      then [\<lparr>entity_type = ''PERSON'', start = 0, end_pos = 8, score = 85 / 100\<rparr>]
      else if t = demo_sentence \<and> n = ''EmailRecognizer''
      then [\<lparr>entity_type = ''EMAIL_ADDRESS'', start = 20, end_pos = 36, score = 1\<rparr>]
      else if t = demo_sentence \<and> n = ''UrlRecognizer''
      then [\<lparr>entity_type = ''URL'', start = 25, end_pos = 36, score = 1 / 2\<rparr>]
      else [])"
| "demo_recognize t (PatternRecognizer e ps) =
     concat (map (\<lambda>p. if regex p \<noteq> [] \<and> take (length (regex p)) t = regex p
                       then [\<lparr>entity_type = e, start = 0, end_pos = length (regex p),
                               score = pat_score p\<rparr>]
                       else []) ps)"

definition demo_analyze ::
  "recognizer list \<Rightarrow> string \<Rightarrow> string list option \<Rightarrow> string \<Rightarrow> recognizer_result list" where
  "demo_analyze registry t entities language =
     filter (\<lambda>r. case entities of None \<Rightarrow> True | Some es \<Rightarrow> entity_type r \<in> set es)
       (concat (map (demo_recognize t) registry))"

text \<open>A codec for ASCII: bytes below 128 decode to themselves, any other byte is an error.\<close>

definition demo_decode :: "bytes \<Rightarrow> string option" where
  "demo_decode bs = (if list_all (\<lambda>b. (of_char b :: nat) < 128) bs then Some bs else None)"

definition join :: "string \<Rightarrow> string list \<Rightarrow> string" where
  "join sep xs = (case xs of [] \<Rightarrow> [] | y # ys \<Rightarrow> foldl (\<lambda>acc x. acc @ sep @ x) y ys)"

text \<open>CSV without quoting: rows are lines, cells are separated by commas.\<close>

definition demo_csv_reader :: "string \<Rightarrow> string list list option" where
  "demo_csv_reader s =
     Some (map (split_on CHR '','') (filter (\<lambda>l. l \<noteq> []) (split_on CHR 0x0A s)))"

definition demo_csv_writer :: "string list list \<Rightarrow> string" where
  "demo_csv_writer rows = concat (map (\<lambda>row. join '','' row @ [CHR 0x0A]) rows)"

text \<open>A JSON reader that knows one document, and a printer without numbers.\<close>

definition demo_document :: string where
  "demo_document = ''{user: john@example.com, age: 30, tags: [null, true]}''"

definition demo_json_loads :: "string \<Rightarrow> json option" where
  "demo_json_loads s =
     (if s = demo_document
      then Some (JDict [(''user'', JStr ''john@example.com''), (''age'', JInt 30),
                        (''tags'', JList [JNull, JBool True])])
      else None)"

fun demo_json_dumps :: "json \<Rightarrow> string" where
  "demo_json_dumps JNull = ''null''"
| "demo_json_dumps (JBool b) = (if b then ''true'' else ''false'')"
| "demo_json_dumps (JInt i) = ''#''"
| "demo_json_dumps (JFloat x) = ''#.#''"
| "demo_json_dumps (JStr s) = s"
| "demo_json_dumps (JList xs) = ''['' @ join '', '' (map demo_json_dumps xs) @ '']''"
| "demo_json_dumps (JDict kvs) =
     ''{'' @ join '', '' (map (\<lambda>kv. fst kv @ '': '' @ demo_json_dumps (snd kv)) kvs) @ ''}''"

definition demo_str_matches :: "pii_match list \<Rightarrow> string" where
  "demo_str_matches ms = ''['' @ join '', '' (map (\<lambda>m. m_entity m @ '':'' @ m_text m) ms) @ '']''"

text \<open>The constructor of the stand-in refuses the pattern \<open>(\<close>, an unbalanced parenthesis.\<close>

definition demo_libs :: libs where
  "demo_libs =
     \<lparr>predefined_recognizers =
        [Predefined ''SpacyRecognizer'', Predefined ''EmailRecognizer'', Predefined ''UrlRecognizer''],
      pattern_recognizer_raises = (\<lambda>e ps. list_ex (\<lambda>p. regex p = ''('') ps),
      analyze = demo_analyze,
      anonymize = replace_spans,
      decode_utf8 = demo_decode,
      csv_reader = demo_csv_reader,
      csv_writer = demo_csv_writer,
      json_loads = demo_json_loads,
      json_dumps = demo_json_dumps,
      str_matches = demo_str_matches\<rparr>"

section \<open>Auxiliary facts\<close>

subsection \<open>File name suffixes exclude each other\<close>

lemma take_shorter: "take m xs = ys \<Longrightarrow> n \<le> m \<Longrightarrow> take n xs = take n ys"
proof -
  assume a: "take m xs = ys" and b: "n \<le> m"
  from a have "take n ys = take n (take m xs)" by simp
  also from b have "\<dots> = take n xs" by (simp add: min_def)
  finally show ?thesis by simp
qed

lemma endswith_shorter:
  assumes a: "endswith s a" and l: "length b \<le> length a"
  shows "endswith s b = (take (length b) (rev a) = rev b)"
proof -
  from a have "take (length a) (rev s) = rev a" by (simp only: endswith_def)
  from take_shorter [OF this l] show ?thesis by (simp only: endswith_def)
qed

lemma endswith_json_not_csv: "endswith s ''.json'' \<Longrightarrow> \<not> endswith s ''.csv''"
  using endswith_shorter [of s "''.json''" "''.csv''"] by simp

lemma endswith_txt_not_csv: "endswith s ''.txt'' \<Longrightarrow> \<not> endswith s ''.csv''"
  using endswith_shorter [of s "''.txt''" "''.csv''"] by simp

lemma endswith_pdf_not_csv: "endswith s ''.pdf'' \<Longrightarrow> \<not> endswith s ''.csv''"
  using endswith_shorter [of s "''.pdf''" "''.csv''"] by simp

lemma endswith_txt_not_json: "endswith s ''.txt'' \<Longrightarrow> \<not> endswith s ''.json''"
  using endswith_shorter [of s "''.json''" "''.txt''"] by auto

lemma endswith_pdf_not_json: "endswith s ''.pdf'' \<Longrightarrow> \<not> endswith s ''.json''"
  using endswith_shorter [of s "''.json''" "''.pdf''"] by auto

lemma endswith_pdf_not_txt: "endswith s ''.pdf'' \<Longrightarrow> \<not> endswith s ''.txt''"
  using endswith_shorter [of s "''.pdf''" "''.txt''"] by simp

lemmas suffix_exclusion =
  endswith_json_not_csv endswith_txt_not_csv endswith_pdf_not_csv
  endswith_txt_not_json endswith_pdf_not_json endswith_pdf_not_txt

subsection \<open>The branches of \<open>process_file\<close>\<close>

lemma process_file_csv:
  assumes "endswith (lower (file_name f)) ''.csv''"
    and "decode_utf8 L (file_data f) = Some decoded"
    and "csv_reader L decoded = Some (header # rows)"
  shows "process_file L (Some f) cr wl mode =
    (let out = csv_writer L (header # map (map (process_cell L cr (whitelist_items wl) mode)) rows)
     in Inr (out, Some out))"
  using assms by (simp add: process_file_def Let_def)

lemma process_file_csv_empty:
  assumes "endswith (lower (file_name f)) ''.csv''"
    and "decode_utf8 L (file_data f) = Some decoded"
    and "csv_reader L decoded = Some []"
  shows "process_file L (Some f) cr wl mode = Inl IndexError"
  using assms by (simp add: process_file_def Let_def)

lemma process_file_json:
  assumes "endswith (lower (file_name f)) ''.json''"
    and "decode_utf8 L (file_data f) = Some decoded"
    and "json_loads L decoded = Some j"
  shows "process_file L (Some f) cr wl mode =
    (let out = json_dumps L (process_json L cr (whitelist_items wl) mode j)
     in Inr (out, Some out))"
  using assms by (simp add: process_file_def Let_def endswith_json_not_csv)

lemma process_file_txt:
  assumes "endswith (lower (file_name f)) ''.txt''"
    and "decode_utf8 L (file_data f) = Some t"
  shows "process_file L (Some f) cr wl mode =
    (let out = (if mode = ''detect'' then str_matches L (detect_pii L t cr)
                else anonymize_text L t cr (whitelist_items wl))
     in Inr (out, Some out))"
  using assms by (simp add: process_file_def Let_def endswith_txt_not_csv endswith_txt_not_json)

lemma process_file_pdf:
  assumes "endswith (lower (file_name f)) ''.pdf''"
  shows "process_file L (Some f) cr wl mode = Inr (pdf_message, None)"
  using assms
  by (simp add: process_file_def Let_def endswith_pdf_not_csv endswith_pdf_not_json
      endswith_pdf_not_txt)

lemma process_file_other:
  assumes "\<not> endswith (lower (file_name f)) ''.csv''"
    and "\<not> endswith (lower (file_name f)) ''.json''"
    and "\<not> endswith (lower (file_name f)) ''.txt''"
    and "\<not> endswith (lower (file_name f)) ''.pdf''"
  shows "process_file L (Some f) cr wl mode = Inr (''Unsupported file type'', None)"
  using assms by (simp add: process_file_def Let_def)

lemma process_file_returned_pair:
  assumes "process_file L (Some f) cr wl mode = Inr (d, p)"
  shows "p = (if supported f then Some d else None)"
proof (cases "endswith (lower (file_name f)) ''.csv''")
  case True
  with assms show ?thesis
    by (auto simp: process_file_def Let_def supported_def split: option.splits list.splits)
next
  case csv: False
  show ?thesis
  proof (cases "endswith (lower (file_name f)) ''.json''")
    case True
    with assms csv show ?thesis
      by (auto simp: process_file_def Let_def supported_def split: option.splits)
  next
    case json: False
    show ?thesis
    proof (cases "endswith (lower (file_name f)) ''.txt''")
      case True
      with assms csv json show ?thesis
        by (auto simp: process_file_def Let_def supported_def split: option.splits)
    next
      case False
      with assms csv json show ?thesis
        by (auto simp: process_file_def Let_def supported_def split: if_splits)
    qed
  qed
qed

subsection \<open>Detect mode does not read the whitelist\<close>

lemma process_cell_detect:
  "process_cell L cr wl1 ''detect'' = process_cell L cr wl2 ''detect''"
  by (rule ext) (simp add: process_cell_def)

lemma process_json_detect:
  "process_json L cr wl1 ''detect'' j = process_json L cr wl2 ''detect'' j"
  by (induction j) auto

subsection \<open>The JSON walk keeps the shape\<close>

lemma same_shape_list_map:
  "(\<And>x. x \<in> set xs \<Longrightarrow> same_shape x (g x)) \<Longrightarrow> same_shape_list xs (map g xs)"
  by (induction xs) simp_all

lemma same_shape_items_map:
  "(\<And>kv. kv \<in> set kvs \<Longrightarrow> same_shape (snd kv) (g (snd kv))) \<Longrightarrow>
   same_shape_items kvs (map (\<lambda>kv. (fst kv, g (snd kv))) kvs)"
  by (induction kvs) simp_all

lemma same_shape_process_json:
  "mode \<noteq> ''detect'' \<Longrightarrow> same_shape j (process_json L cr wl mode j)"
proof (induction j)
  case (JList xs)
  then show ?case by (simp add: same_shape_list_map)
next
  case (JDict kvs)
  have "same_shape (snd kv) (process_json L cr wl mode (snd kv))" if "kv \<in> set kvs" for kv
  proof -
    have "snd kv \<in> Basic_BNFs.snds kv" by (cases kv) simp
    from JDict.IH [OF that this JDict.prems] show ?thesis .
  qed
  then show ?case by (simp add: same_shape_items_map)
qed simp_all

subsection \<open>Rounding to three places\<close>

lemma round_half_even_floor: "\<lfloor>x\<rfloor> \<le> round_half_even x"
  by (simp add: round_half_even_def Let_def)

lemma round_half_even_ceiling: "round_half_even x \<le> \<lceil>x\<rceil>"
proof (cases "x - of_int \<lfloor>x\<rfloor> < 1 / 2")
  case True
  then show ?thesis by (simp add: round_half_even_def Let_def)
next
  case False
  then have "of_int \<lfloor>x\<rfloor> < x" by simp
  then have "\<lfloor>x\<rfloor> < \<lceil>x\<rceil>" by (simp add: less_ceiling_iff)
  then show ?thesis by (simp add: round_half_even_def Let_def)
qed

lemma round3_range:
  assumes "0 \<le> x" and "x \<le> 1"
  shows "0 \<le> round3 x \<and> round3 x \<le> 1"
proof -
  from assms have "0 \<le> \<lfloor>x * 1000\<rfloor>" by simp
  with round_half_even_floor [of "x * 1000"] have lo: "0 \<le> round_half_even (x * 1000)"
    by linarith
  from assms have "\<lceil>x * 1000\<rceil> \<le> 1000" by (simp add: ceiling_le_iff)
  with round_half_even_ceiling [of "x * 1000"] have hi: "round_half_even (x * 1000) \<le> 1000"
    by linarith
  from lo hi show ?thesis by (simp add: round3_def)
qed

lemma round3_three_places: "\<exists>k::int. round3 x = of_int k / 1000"
  by (auto simp: round3_def)

subsection \<open>Replacing spans that do not overlap\<close>











lemmas demo_eval =
  demo_libs_def make_registry_def build_custom_regex_recognizer_def custom_patterns_def
  demo_analyze_def slice_def replace_spans_def placeholder_def detect_entities_def readable_def
  round3_def round_half_even_def demo_decode_def demo_csv_reader_def demo_csv_writer_def join_def
  demo_json_loads_def demo_document_def demo_sentence_def demo_str_matches_def lower_def lower_char_def endswith_def
  whitelist_items_def strip_def isspace_def process_cell_def Let_def

section \<open>The claims\<close>

text \<open>
  C5. \<open>build_custom_regex_recognizer\<close> returns no recognizer when the pattern is absent or
  empty, returns no recognizer (and raises nothing) when the construction raises, and
  otherwise returns a recognizer with the fixed label \<open>CUSTOM_PII\<close> and the fixed score 0.85.
  "Not requested" and "failed to build" give the same value, \<open>None\<close>.
\<close>

theorem build_custom_regex_recognizer_cases:
  "build_custom_regex_recognizer L None = None
   \<and> build_custom_regex_recognizer L (Some []) = None
   \<and> (pattern_recognizer_raises L ''CUSTOM_PII'' (custom_patterns p)
        \<longrightarrow> build_custom_regex_recognizer L (Some p) = None)
   \<and> (p \<noteq> [] \<and> \<not> pattern_recognizer_raises L ''CUSTOM_PII'' (custom_patterns p)
        \<longrightarrow> build_custom_regex_recognizer L (Some p) =
            Some (PatternRecognizer ''CUSTOM_PII''
                    [\<lparr>pat_name = ''custom_pattern'', regex = p, pat_score = 85 / 100\<rparr>]))"
  by (simp add: build_custom_regex_recognizer_def custom_patterns_def)

theorem build_custom_regex_recognizer_cases_witness:
  "pattern_recognizer_raises demo_libs ''CUSTOM_PII'' (custom_patterns ''('')
   \<and> build_custom_regex_recognizer demo_libs (Some ''('') = None
   \<and> ''ID-42'' \<noteq> []
   \<and> \<not> pattern_recognizer_raises demo_libs ''CUSTOM_PII'' (custom_patterns ''ID-42'')
   \<and> build_custom_regex_recognizer demo_libs (Some ''ID-42'') =
       Some (PatternRecognizer ''CUSTOM_PII''
               [\<lparr>pat_name = ''custom_pattern'', regex = ''ID-42'', pat_score = 85 / 100\<rparr>])"
proof -
  have r: "pattern_recognizer_raises demo_libs ''CUSTOM_PII'' (custom_patterns ''('')"
    by (simp add: demo_libs_def custom_patterns_def)
  have n: "''ID-42'' \<noteq> [] \<and>
      \<not> pattern_recognizer_raises demo_libs ''CUSTOM_PII'' (custom_patterns ''ID-42'')"
    by (simp add: demo_libs_def custom_patterns_def)
  from r n build_custom_regex_recognizer_cases [of demo_libs "''(''"]
    build_custom_regex_recognizer_cases [of demo_libs "''ID-42''"]
  show ?thesis by blast
qed

text \<open>
  C6. \<open>process_file\<close> returns a fixed message with no download payload in its three error
  cases: "No file uploaded" without a file; the fixed PDF message when the lower-cased name
  ends in \<open>.pdf\<close>, whatever the content (it is not decoded); "Unsupported file type" for a
  name with none of the four suffixes.
\<close>

theorem process_file_error_cases:
  "process_file L None cr wl mode = Inr (''No file uploaded'', None)
   \<and> (endswith (lower (file_name f)) ''.pdf''
        \<longrightarrow> process_file L (Some f) cr wl mode =
            Inr (''PDF support present in your original code (presidio can't extract text reliably).'',
                 None))
   \<and> (\<not> endswith (lower (file_name f)) ''.csv'' \<and> \<not> endswith (lower (file_name f)) ''.json''
      \<and> \<not> endswith (lower (file_name f)) ''.txt'' \<and> \<not> endswith (lower (file_name f)) ''.pdf''
        \<longrightarrow> process_file L (Some f) cr wl mode = Inr (''Unsupported file type'', None))"
proof -
  have "process_file L None cr wl mode = Inr (''No file uploaded'', None)"
    by (simp add: process_file_def)
  moreover have "endswith (lower (file_name f)) ''.pdf'' \<longrightarrow>
      process_file L (Some f) cr wl mode =
        Inr (''PDF support present in your original code (presidio can't extract text reliably).'',
             None)"
    using process_file_pdf [of f L cr wl mode] by (simp add: pdf_message_def)
  moreover have "\<not> endswith (lower (file_name f)) ''.csv'' \<and> \<not> endswith (lower (file_name f)) ''.json''
      \<and> \<not> endswith (lower (file_name f)) ''.txt'' \<and> \<not> endswith (lower (file_name f)) ''.pdf''
        \<longrightarrow> process_file L (Some f) cr wl mode = Inr (''Unsupported file type'', None)"
    using process_file_other [of f L cr wl mode] by blast
  ultimately show ?thesis by blast
qed

theorem process_file_error_cases_witness:
  "endswith (lower (file_name \<lparr>file_name = ''Scan.PDF'', file_data = ''%PDF-1.7''\<rparr>)) ''.pdf''
   \<and> process_file demo_libs (Some \<lparr>file_name = ''Scan.PDF'', file_data = ''%PDF-1.7''\<rparr>)
        None None ''detect'' =
       Inr (''PDF support present in your original code (presidio can't extract text reliably).'',
            None)
   \<and> \<not> endswith (lower (file_name \<lparr>file_name = ''data.xyz'', file_data = ''a''\<rparr>)) ''.csv''
   \<and> \<not> endswith (lower (file_name \<lparr>file_name = ''data.xyz'', file_data = ''a''\<rparr>)) ''.json''
   \<and> \<not> endswith (lower (file_name \<lparr>file_name = ''data.xyz'', file_data = ''a''\<rparr>)) ''.txt''
   \<and> \<not> endswith (lower (file_name \<lparr>file_name = ''data.xyz'', file_data = ''a''\<rparr>)) ''.pdf''
   \<and> process_file demo_libs (Some \<lparr>file_name = ''data.xyz'', file_data = ''a''\<rparr>)
        None None ''anonymize'' = Inr (''Unsupported file type'', None)"
proof -
  have p: "endswith (lower (file_name \<lparr>file_name = ''Scan.PDF'', file_data = ''%PDF-1.7''\<rparr>)) ''.pdf''"
    by (simp add: lower_def lower_char_def endswith_def)
  have x: "\<not> endswith (lower (file_name \<lparr>file_name = ''data.xyz'', file_data = ''a''\<rparr>)) ''.csv''
     \<and> \<not> endswith (lower (file_name \<lparr>file_name = ''data.xyz'', file_data = ''a''\<rparr>)) ''.json''
     \<and> \<not> endswith (lower (file_name \<lparr>file_name = ''data.xyz'', file_data = ''a''\<rparr>)) ''.txt''
     \<and> \<not> endswith (lower (file_name \<lparr>file_name = ''data.xyz'', file_data = ''a''\<rparr>)) ''.pdf''"
    by (simp add: lower_def lower_char_def endswith_def)
  from p x
    process_file_error_cases [of demo_libs None None "''detect''"
      "\<lparr>file_name = ''Scan.PDF'', file_data = ''%PDF-1.7''\<rparr>"]
    process_file_error_cases [of demo_libs None None "''anonymize''"
      "\<lparr>file_name = ''data.xyz'', file_data = ''a''\<rparr>"]
  show ?thesis by blast
qed

text \<open>
  C9. In detect mode the whitelist has no effect: for every file and custom pattern,
  \<open>process_file\<close> with mode "detect" gives the same result for any two whitelist values.
\<close>

theorem detect_mode_ignores_whitelist:
  "process_file L file cr wl1 ''detect'' = process_file L file cr wl2 ''detect''"
  by (simp add: process_file_def Let_def
      process_cell_detect [of L cr "whitelist_items wl1" "whitelist_items wl2"]
      process_json_detect [of L cr "whitelist_items wl1" _ "whitelist_items wl2"]
      split: option.splits list.splits)

text \<open>
  C10. The CSV branch takes the header by indexing the first parsed row: when the decoded
  content of a \<open>.csv\<close> file parses to zero rows, \<open>process_file\<close> raises \<open>IndexError\<close> and
  returns nothing; when it parses to at least one row, the indexing is safe and
  \<open>process_file\<close> returns.
\<close>

theorem csv_header_indexing:
  assumes "endswith (lower (file_name f)) ''.csv''"
    and "decode_utf8 L (file_data f) = Some decoded"
  shows "(csv_reader L decoded = Some [] \<longrightarrow> process_file L (Some f) cr wl mode = Inl IndexError)
    \<and> (\<forall>header rows. csv_reader L decoded = Some (header # rows) \<longrightarrow>
          (\<exists>out. process_file L (Some f) cr wl mode = Inr (out, Some out)))"
  using assms by (simp add: process_file_def Let_def)

theorem csv_header_indexing_witness:
  "endswith (lower (file_name \<lparr>file_name = ''empty.csv'', file_data = ''''\<rparr>)) ''.csv''
   \<and> decode_utf8 demo_libs (file_data \<lparr>file_name = ''empty.csv'', file_data = ''''\<rparr>) = Some ''''
   \<and> csv_reader demo_libs '''' = Some []
   \<and> process_file demo_libs (Some \<lparr>file_name = ''empty.csv'', file_data = ''''\<rparr>)
        None None ''anonymize'' = Inl IndexError"
proof -
  have e: "endswith (lower (file_name \<lparr>file_name = ''empty.csv'', file_data = ''''\<rparr>)) ''.csv''"
    by (simp add: lower_def lower_char_def endswith_def)
  have d: "decode_utf8 demo_libs (file_data \<lparr>file_name = ''empty.csv'', file_data = ''''\<rparr>) = Some ''''"
    by (simp add: demo_libs_def demo_decode_def)
  have r: "csv_reader demo_libs '''' = Some []"
    by (simp add: demo_libs_def demo_csv_reader_def)
  from e d r csv_header_indexing [OF e d, of None None "''anonymize''"]
  show ?thesis by blast
qed

text \<open>
  C3. For a \<open>.csv\<close> file whose decoded content parses to a header \<open>H\<close> followed by rows
  \<open>R\<close>, in either mode, \<open>process_file\<close> returns the CSV text written from the same header
  \<open>H\<close>, unmodified, followed by exactly as many rows as \<open>R\<close>, each with as many cells as
  the row it comes from: only the contents of the cells below the header change.
\<close>

theorem csv_header_and_rows_kept:
  assumes "endswith (lower (file_name f)) ''.csv''"
    and "decode_utf8 L (file_data f) = Some decoded"
    and "csv_reader L decoded = Some (H # R)"
  shows "\<exists>R'. process_file L (Some f) cr wl mode =
            Inr (csv_writer L (H # R'), Some (csv_writer L (H # R')))
          \<and> length R' = length R
          \<and> list_all2 (\<lambda>row row'. length row' = length row) R R'"
proof -
  let ?R' = "map (map (process_cell L cr (whitelist_items wl) mode)) R"
  have "process_file L (Some f) cr wl mode =
      Inr (csv_writer L (H # ?R'), Some (csv_writer L (H # ?R')))"
    using process_file_csv [OF assms, of cr wl mode] by (simp add: Let_def)
  moreover have "length ?R' = length R" by simp
  moreover have "list_all2 (\<lambda>row row'. length row' = length row) R ?R'"
    by (simp add: list_all2_conv_all_nth)
  ultimately show ?thesis by blast
qed

theorem csv_header_and_rows_kept_witness:
  "endswith (lower (file_name \<lparr>file_name = ''People.CSV'',
       file_data = ''name,email'' @ [CHR 0x0A] @ ''bob,john@example.com''\<rparr>)) ''.csv''
   \<and> decode_utf8 demo_libs (file_data \<lparr>file_name = ''People.CSV'',
       file_data = ''name,email'' @ [CHR 0x0A] @ ''bob,john@example.com''\<rparr>) =
       Some (''name,email'' @ [CHR 0x0A] @ ''bob,john@example.com'')
   \<and> csv_reader demo_libs (''name,email'' @ [CHR 0x0A] @ ''bob,john@example.com'') =
       Some ([''name'', ''email''] # [[''bob'', ''john@example.com'']])
   \<and> (\<exists>R'. process_file demo_libs (Some \<lparr>file_name = ''People.CSV'',
          file_data = ''name,email'' @ [CHR 0x0A] @ ''bob,john@example.com''\<rparr>)
          None None ''anonymize'' =
            Inr (csv_writer demo_libs ([''name'', ''email''] # R'),
                 Some (csv_writer demo_libs ([''name'', ''email''] # R')))
        \<and> length R' = length [[''bob'', ''john@example.com'']]
        \<and> list_all2 (\<lambda>row row'. length row' = length row) [[''bob'', ''john@example.com'']] R')"
proof -
  let ?f = "\<lparr>file_name = ''People.CSV'',
       file_data = ''name,email'' @ [CHR 0x0A] @ ''bob,john@example.com''\<rparr>"
  have e: "endswith (lower (file_name ?f)) ''.csv''"
    by (simp add: lower_def lower_char_def endswith_def)
  have d: "decode_utf8 demo_libs (file_data ?f) =
      Some (''name,email'' @ [CHR 0x0A] @ ''bob,john@example.com'')"
    by (simp add: demo_libs_def demo_decode_def)
  have r: "csv_reader demo_libs (''name,email'' @ [CHR 0x0A] @ ''bob,john@example.com'') =
      Some ([''name'', ''email''] # [[''bob'', ''john@example.com'']])"
    by (simp add: demo_libs_def demo_csv_reader_def)
  from e d r csv_header_and_rows_kept [OF e d r, of None None "''anonymize''"]
  show ?thesis by blast
qed

text \<open>
  C4. For a \<open>.json\<close> file processed in anonymize mode, the value that is serialised has the
  same shape as the parsed input: dicts keep their keys, lists keep their lengths and
  order, numbers, booleans and null are unchanged; only string leaves are rewritten (to
  strings).
\<close>

theorem json_shape_kept:
  assumes "endswith (lower (file_name f)) ''.json''"
    and "decode_utf8 L (file_data f) = Some decoded"
    and "json_loads L decoded = Some j"
  shows "\<exists>j'. process_file L (Some f) cr wl ''anonymize'' =
            Inr (json_dumps L j', Some (json_dumps L j'))
          \<and> j' = process_json L cr (whitelist_items wl) ''anonymize'' j
          \<and> same_shape j j'"
proof -
  let ?j' = "process_json L cr (whitelist_items wl) ''anonymize'' j"
  have "process_file L (Some f) cr wl ''anonymize'' =
      Inr (json_dumps L ?j', Some (json_dumps L ?j'))"
    using process_file_json [OF assms, of cr wl "''anonymize''"] by (simp add: Let_def)
  moreover have "same_shape j ?j'"
    by (rule same_shape_process_json) simp
  ultimately show ?thesis by blast
qed

theorem json_shape_kept_witness:
  "endswith (lower (file_name \<lparr>file_name = ''d.json'', file_data = demo_document\<rparr>)) ''.json''
   \<and> decode_utf8 demo_libs (file_data \<lparr>file_name = ''d.json'', file_data = demo_document\<rparr>) =
       Some demo_document
   \<and> json_loads demo_libs demo_document =
       Some (JDict [(''user'', JStr ''john@example.com''), (''age'', JInt 30),
                    (''tags'', JList [JNull, JBool True])])
   \<and> (\<exists>j'. process_file demo_libs (Some \<lparr>file_name = ''d.json'', file_data = demo_document\<rparr>)
          None None ''anonymize'' = Inr (json_dumps demo_libs j', Some (json_dumps demo_libs j'))
        \<and> j' = process_json demo_libs None (whitelist_items None) ''anonymize''
                 (JDict [(''user'', JStr ''john@example.com''), (''age'', JInt 30),
                         (''tags'', JList [JNull, JBool True])])
        \<and> same_shape (JDict [(''user'', JStr ''john@example.com''), (''age'', JInt 30),
                              (''tags'', JList [JNull, JBool True])]) j')"
proof -
  let ?f = "\<lparr>file_name = ''d.json'', file_data = demo_document\<rparr>"
  have e: "endswith (lower (file_name ?f)) ''.json''"
    by (simp add: lower_def lower_char_def endswith_def)
  have d: "decode_utf8 demo_libs (file_data ?f) = Some demo_document"
    by (simp add: demo_libs_def demo_decode_def demo_document_def)
  have l: "json_loads demo_libs demo_document =
      Some (JDict [(''user'', JStr ''john@example.com''), (''age'', JInt 30),
                   (''tags'', JList [JNull, JBool True])])"
    by (simp add: demo_libs_def demo_json_loads_def)
  from e d l json_shape_kept [OF e d l, of None None]
  show ?thesis by blast
qed

text \<open>
  C7. For a file of a supported format (\<open>.csv\<close>, \<open>.json\<close>, \<open>.txt\<close>) whose content decodes and
  parses, \<open>process_file\<close> returns a pair, and whenever it returns on such a format the
  download payload is the display string itself; for any other name, and without a file,
  it returns a pair with no payload.
\<close>

theorem process_file_pair:
  "(supported f \<and> parses L f \<longrightarrow> (\<exists>d. process_file L (Some f) cr wl mode = Inr (d, Some d)))
   \<and> (supported f \<and> process_file L (Some f) cr wl mode = Inr (d', p) \<longrightarrow> p = Some d')
   \<and> (\<not> supported f \<longrightarrow> (\<exists>d. process_file L (Some f) cr wl mode = Inr (d, None)))
   \<and> (\<exists>d. process_file L None cr wl mode = Inr (d, None))"
proof -
  have a: "\<exists>d. process_file L (Some f) cr wl mode = Inr (d, Some d)"
    if s: "supported f" and p: "parses L f"
  proof -
    from p obtain decoded where dec: "decode_utf8 L (file_data f) = Some decoded"
      by (auto simp: parses_def split: option.splits)
    consider (is_csv) "endswith (lower (file_name f)) ''.csv''"
      | (is_json) "endswith (lower (file_name f)) ''.json''"
      | (is_txt) "endswith (lower (file_name f)) ''.txt''"
      using s by (auto simp: supported_def)
    then show ?thesis
    proof cases
      case is_csv
      with p dec obtain header rows where "csv_reader L decoded = Some (header # rows)"
        by (auto simp: parses_def split: option.splits list.splits)
      from process_file_csv [OF is_csv dec this, of cr wl mode] show ?thesis
        by (simp add: Let_def)
    next
      case is_json
      then have "\<not> endswith (lower (file_name f)) ''.csv''" by (rule endswith_json_not_csv)
      with is_json p dec obtain j where "json_loads L decoded = Some j"
        by (auto simp: parses_def split: option.splits)
      from process_file_json [OF is_json dec this, of cr wl mode] show ?thesis
        by (simp add: Let_def)
    next
      case is_txt
      from process_file_txt [OF is_txt dec, of cr wl mode] show ?thesis
        by (simp add: Let_def)
    qed
  qed
  have b: "p = Some d'" if "supported f" and "process_file L (Some f) cr wl mode = Inr (d', p)"
    using process_file_returned_pair [OF that(2)] that(1) by simp
  have c: "\<exists>d. process_file L (Some f) cr wl mode = Inr (d, None)" if "\<not> supported f"
  proof (cases "endswith (lower (file_name f)) ''.pdf''")
    case True
    then show ?thesis by (simp add: process_file_pdf)
  next
    case False
    with that show ?thesis by (simp add: process_file_other supported_def)
  qed
  have d: "\<exists>d. process_file L None cr wl mode = Inr (d, None)"
    by (simp add: process_file_def)
  from a b c d show ?thesis by blast
qed

theorem process_file_pair_witness:
  "supported \<lparr>file_name = ''note.txt'', file_data = ''john@example.com''\<rparr>
   \<and> parses demo_libs \<lparr>file_name = ''note.txt'', file_data = ''john@example.com''\<rparr>
   \<and> process_file demo_libs (Some \<lparr>file_name = ''note.txt'', file_data = ''john@example.com''\<rparr>)
        None None ''anonymize'' = Inr (''<EMAIL_ADDRESS>'', Some ''<EMAIL_ADDRESS>'')
   \<and> \<not> supported \<lparr>file_name = ''data.xyz'', file_data = ''a''\<rparr>
   \<and> (\<exists>d. process_file demo_libs (Some \<lparr>file_name = ''data.xyz'', file_data = ''a''\<rparr>)
          None None ''anonymize'' = Inr (d, None))"
proof -
  let ?f = "\<lparr>file_name = ''note.txt'', file_data = ''john@example.com''\<rparr>"
  let ?g = "\<lparr>file_name = ''data.xyz'', file_data = ''a''\<rparr>"
  have s: "supported ?f"
    by (simp add: supported_def lower_def lower_char_def endswith_def)
  have p: "parses demo_libs ?f"
    by (simp add: parses_def demo_libs_def demo_decode_def lower_def lower_char_def endswith_def)
  have v: "process_file demo_libs (Some ?f) None None ''anonymize'' =
      Inr (''<EMAIL_ADDRESS>'', Some ''<EMAIL_ADDRESS>'')"
    by (simp add: process_file_def anonymize_text_def demo_eval)
  have n: "\<not> supported ?g"
    by (simp add: supported_def lower_def lower_char_def endswith_def)
  from s p v n
    process_file_pair [of ?f demo_libs None None "''anonymize''" "''<EMAIL_ADDRESS>''"
      "Some ''<EMAIL_ADDRESS>''"]
    process_file_pair [of ?g demo_libs None None "''anonymize''"]
  show ?thesis by blast
qed




text \<open>
  C2, as stated, fails: a match of the custom pattern carries the label \<open>CUSTOM_PII\<close>, the
  analyzer's own category, which is none of the labels the claim enumerates.
\<close>

theorem detect_pii_label_counterexample:
  "detect_pii demo_libs ''ID-42 x'' (Some ''ID-42'') =
     [\<lparr>m_entity = ''CUSTOM_PII'', m_score = 85 / 100, m_text = ''ID-42''\<rparr>]
   \<and> ''CUSTOM_PII'' \<notin> set spec_category_labels"
  by (simp add: detect_pii_def spec_category_labels_def demo_eval)

text \<open>
  C2, amended. For every text, \<open>detect_pii\<close> returns one record per analyzer result, in the
  analyzer's order; its text is the substring \<open>text[start:end]\<close> of the input and its score
  is the analyzer's score rounded to three decimal places. When the analyzer keeps to the
  requested categories with scores in [0,1], the rounded score is in [0,1] too, and a
  record of a category that \<open>PII_LABELS\<close> does not rename carries the analyzer's own label,
  one of PERSON, LOCATION, CREDIT_CARD and CUSTOM_PII.
\<close>

theorem detect_pii_records:
  assumes "results_within detect_entities
             (analyze L (make_registry L cr) t (Some detect_entities) ''en'')"
  shows "length (detect_pii L t cr) =
           length (analyze L (make_registry L cr) t (Some detect_entities) ''en'')
    \<and> (\<forall>i < length (analyze L (make_registry L cr) t (Some detect_entities) ''en'').
          m_text (detect_pii L t cr ! i) =
            slice t (start (analyze L (make_registry L cr) t (Some detect_entities) ''en'' ! i))
                    (end_pos (analyze L (make_registry L cr) t (Some detect_entities) ''en'' ! i))
        \<and> m_score (detect_pii L t cr ! i) =
            round3 (score (analyze L (make_registry L cr) t (Some detect_entities) ''en'' ! i))
        \<and> 0 \<le> m_score (detect_pii L t cr ! i) \<and> m_score (detect_pii L t cr ! i) \<le> 1
        \<and> (\<exists>k::int. m_score (detect_pii L t cr ! i) = of_int k / 1000)
        \<and> (map_of PII_LABELS
              (entity_type (analyze L (make_registry L cr) t (Some detect_entities) ''en'' ! i))
            \<in> {None,
                Some (entity_type
                  (analyze L (make_registry L cr) t (Some detect_entities) ''en'' ! i))}
           \<longrightarrow> m_entity (detect_pii L t cr ! i) =
                 entity_type (analyze L (make_registry L cr) t (Some detect_entities) ''en'' ! i)
               \<and> m_entity (detect_pii L t cr ! i)
                   \<in> set [''PERSON'', ''LOCATION'', ''CREDIT_CARD'', ''CUSTOM_PII'']))"
proof -
  let ?results = "analyze L (make_registry L cr) t (Some detect_entities) ''en''"
  have d: "detect_pii L t cr = map (readable t) ?results"
    by (simp add: detect_pii_def Let_def)
  have len: "length (detect_pii L t cr) = length ?results"
    by (simp add: d)
  have each: "m_text (detect_pii L t cr ! i) =
        slice t (start (?results ! i)) (end_pos (?results ! i))
      \<and> m_score (detect_pii L t cr ! i) = round3 (score (?results ! i))
      \<and> 0 \<le> m_score (detect_pii L t cr ! i) \<and> m_score (detect_pii L t cr ! i) \<le> 1
      \<and> (\<exists>k::int. m_score (detect_pii L t cr ! i) = of_int k / 1000)
      \<and> (map_of PII_LABELS (entity_type (?results ! i))
            \<in> {None, Some (entity_type (?results ! i))}
         \<longrightarrow> m_entity (detect_pii L t cr ! i) = entity_type (?results ! i)
             \<and> m_entity (detect_pii L t cr ! i)
                 \<in> set [''PERSON'', ''LOCATION'', ''CREDIT_CARD'', ''CUSTOM_PII''])"
    if i: "i < length ?results" for i
  proof -
    let ?r = "?results ! i"
    from i have m: "detect_pii L t cr ! i = readable t ?r" by (simp add: d)
    from i have "?r \<in> set ?results" by simp
    with assms have w: "entity_type ?r \<in> set detect_entities"
      and lo: "0 \<le> score ?r" and hi: "score ?r \<le> 1"
      by (auto simp: results_within_def list_all_iff)
    from round3_range [OF lo hi] have rng: "0 \<le> round3 (score ?r)" "round3 (score ?r) \<le> 1"
      by simp_all
    have lab: "entity_type ?r \<in> set [''PERSON'', ''LOCATION'', ''CREDIT_CARD'', ''CUSTOM_PII'']"
      if "map_of PII_LABELS (entity_type ?r) \<in> {None, Some (entity_type ?r)}"
      using w that by (auto simp: detect_entities_def PII_LABELS_def)
    from m rng lab round3_three_places [of "score ?r"] show ?thesis
      by (simp add: readable_def)
  qed
  from len each show ?thesis by blast
qed

theorem detect_pii_records_witness:
  "results_within detect_entities
     (analyze demo_libs (make_registry demo_libs (Some ''ID-42'')) ''ID-42 x''
        (Some detect_entities) ''en'')
   \<and> (0::nat) < length (analyze demo_libs (make_registry demo_libs (Some ''ID-42'')) ''ID-42 x''
        (Some detect_entities) ''en'')
   \<and> map_of PII_LABELS ''CUSTOM_PII'' = None
   \<and> m_entity (detect_pii demo_libs ''ID-42 x'' (Some ''ID-42'') ! 0) = ''CUSTOM_PII''
   \<and> m_text (detect_pii demo_libs ''ID-42 x'' (Some ''ID-42'') ! 0) = ''ID-42''
   \<and> m_score (detect_pii demo_libs ''ID-42 x'' (Some ''ID-42'') ! 0) = 85 / 100"
proof -
  have res: "analyze demo_libs (make_registry demo_libs (Some ''ID-42'')) ''ID-42 x''
        (Some detect_entities) ''en'' =
      [\<lparr>entity_type = ''CUSTOM_PII'', start = 0, end_pos = 5, score = 85 / 100\<rparr>]"
    by (simp add: demo_eval)
  have h: "results_within detect_entities
     (analyze demo_libs (make_registry demo_libs (Some ''ID-42'')) ''ID-42 x''
        (Some detect_entities) ''en'')"
    unfolding res by (simp add: results_within_def detect_entities_def)
  have n: "map_of PII_LABELS ''CUSTOM_PII'' = None"
    by (simp add: PII_LABELS_def)
  have r3: "round3 (85 / 100) = 85 / 100"
    by (simp add: round3_def round_half_even_def)
  from detect_pii_records [OF h] have
    "m_text (detect_pii demo_libs ''ID-42 x'' (Some ''ID-42'') ! 0) = slice ''ID-42 x'' 0 5
     \<and> m_score (detect_pii demo_libs ''ID-42 x'' (Some ''ID-42'') ! 0) = round3 (85 / 100)
     \<and> m_entity (detect_pii demo_libs ''ID-42 x'' (Some ''ID-42'') ! 0) = ''CUSTOM_PII''"
    unfolding res using n by simp
  with h n r3 res show ?thesis by (simp add: slice_def)
qed


end
